theory Spec2Isabelle
  imports Main
begin

section \<open>Platform values\<close>

text \<open>
  The components of this repository are thin wrappers over \<^verbatim>\<open>fetch\<close>, timers and JSX.
  A thrown JavaScript value is a \<open>js_error\<close>; a settled \<^verbatim>\<open>fetch\<close> promise is a value of
  \<open>js_error + response\<close> (\<open>Inl\<close> when the promise rejects).
\<close>

datatype js_error = JsError string

record response =
  status :: nat
  statusText :: string
  body :: string

text \<open>\<^verbatim>\<open>Response.ok\<close>: the status is in the range 200 to 299.\<close>

definition ok :: "response \<Rightarrow> bool" where
  "ok res = (200 \<le> status res \<and> status res \<le> 299)"

text \<open>The cache modes a \<^verbatim>\<open>fetch\<close> request can carry, and the options object of a call.\<close>

datatype cache_mode = CacheDefault | NoStore | Reload | NoCache | ForceCache | OnlyIfCached

record request_init =
  init_method :: "string option"
  init_cache :: "cache_mode option"

text \<open>A call \<^verbatim>\<open>fetch(url)\<close> has no options object; \<^verbatim>\<open>fetch(url, {...})\<close> has one.\<close>

record fetch_call =
  fc_url :: string
  fc_init :: "request_init option"

text \<open>The request a call makes: method and cache mode fall back to the platform defaults.\<close>

definition request_method :: "fetch_call \<Rightarrow> string" where
  "request_method c =
     (case fc_init c of
        None \<Rightarrow> ''GET''
      | Some i \<Rightarrow> (case init_method i of None \<Rightarrow> ''GET'' | Some m \<Rightarrow> m))"

definition request_cache :: "fetch_call \<Rightarrow> cache_mode" where
  "request_cache c =
     (case fc_init c of
        None \<Rightarrow> CacheDefault
      | Some i \<Rightarrow> (case init_cache i of None \<Rightarrow> CacheDefault | Some m \<Rightarrow> m))"

text \<open>
  A JSX tree: an element with its tag, its \<^verbatim>\<open>className\<close> and its children, a string child
  or a number child.
\<close>

datatype jsx = Elem string string "jsx list" | Text string | Num nat

definition digit :: "nat \<Rightarrow> char" where
  "digit d = char_of (48 + d)"

function show_nat :: "nat \<Rightarrow> string" where
  "show_nat n = (if n < 10 then [digit n] else show_nat (n div 10) @ [digit (n mod 10)])"
  by pat_completeness auto
termination
  by (relation "measure (\<lambda>n. n)") auto

declare show_nat.simps [simp del]

text \<open>The text a tree shows (its \<^verbatim>\<open>textContent\<close>).\<close>

fun text_content :: "jsx \<Rightarrow> string" where
  "text_content (Elem tag cls kids) = concat (map text_content kids)"
| "text_content (Text t) = t"
| "text_content (Num n) = show_nat n"

text \<open>The class names of every element of a tree, outermost first.\<close>

fun class_names :: "jsx \<Rightarrow> string list" where
  "class_names (Elem tag cls kids) = cls # concat (map class_names kids)"
| "class_names (Text t) = []"
| "class_names (Num n) = []"

section \<open>HealthStatus.tsx: the client-side health poller\<close>

text \<open>
  \<^verbatim>\<open>const backendHealthUrl = process.env.NEXT_PUBLIC_BACKEND_HEALTH_URL || "";\<close>
  The environment variable is absent (\<open>None\<close>) or a string; \<^verbatim>\<open>||\<close> replaces every falsy
  value, so an absent and an empty variable both give the empty string.
\<close>

definition backendHealthUrl :: "string option \<Rightarrow> string" where
  "backendHealthUrl env = (case env of None \<Rightarrow> '''' | Some u \<Rightarrow> (if u = '''' then '''' else u))"

text \<open>
  An instance of the component is mounted and its effect has run (\<open>Mounted c\<close>, where \<open>c\<close>
  is the cleanup the effect returned: \<open>Some h\<close> for \<^verbatim>\<open>() => clearInterval(h)\<close>, \<open>None\<close> for
  the bare \<^verbatim>\<open>return\<close>), or no instance is mounted (\<open>Unmounted\<close>).
\<close>

datatype lifecycle = Unmounted | Mounted "nat option"

text \<open>
  The state of the component together with the part of the environment it acts on:
  \<^item> \<open>isHealthy\<close>: the \<^verbatim>\<open>useState<boolean | null>(null)\<close> cell of the mounted instance;
    once the instance is unmounted, the value it had at that moment;
  \<^item> \<open>timers\<close>: the active intervals, each a handle with its period in milliseconds;
  \<^item> \<open>next_timer\<close>: the handle the next \<^verbatim>\<open>setInterval\<close> returns;
  \<^item> \<open>fetches\<close>: every \<^verbatim>\<open>fetch\<close> call made so far, in order; a probe is named by the index of
    its call;
  \<^item> \<open>inflight\<close>: the probes of the mounted instance whose promise has not settled yet;
  \<^item> \<open>detached\<close>: the probes of instances unmounted since, whose promise has not settled
    yet; the \<^verbatim>\<open>checkHealth\<close> waiting on such a promise holds the setter of its own, removed
    instance;
  \<^item> \<open>console\<close>: what \<^verbatim>\<open>console.error\<close> has logged;
  \<^item> \<open>unhandled\<close>: the errors that left \<^verbatim>\<open>checkHealth\<close> uncaught (unhandled rejections).
\<close>

record poller =
  isHealthy :: "bool option"
  lifecycle :: lifecycle
  timers :: "(nat \<times> nat) list"
  next_timer :: nat
  fetches :: "fetch_call list"
  inflight :: "nat list"
  detached :: "nat list"
  console :: "js_error list"
  unhandled :: "js_error list"

definition initial :: poller where
  "initial = \<lparr>isHealthy = None, lifecycle = Unmounted, timers = [], next_timer = 0,
     fetches = [], inflight = [], detached = [], console = [], unhandled = []\<rparr>"

text \<open>
  The hook \<^verbatim>\<open>useState<boolean | null>(null)\<close> gives a new instance the state \<^verbatim>\<open>null\<close> and a
  setter bound to that instance. React applies a call of the setter while its instance is
  mounted and discards a call made after the instance has been unmounted.
\<close>

definition useState_null :: "poller \<Rightarrow> poller" where
  "useState_null s = s\<lparr>isHealthy := None\<rparr>"

definition setIsHealthy :: "bool \<Rightarrow> poller \<Rightarrow> poller" where
  "setIsHealthy v s = s\<lparr>isHealthy := Some v\<rparr>"

definition setIsHealthy_unmounted :: "bool \<Rightarrow> poller \<Rightarrow> poller" where
  "setIsHealthy_unmounted v s = s"

definition console_error :: "js_error \<Rightarrow> poller \<Rightarrow> poller" where
  "console_error e s = s\<lparr>console := console s @ [e]\<rparr>"

definition fetch :: "fetch_call \<Rightarrow> poller \<Rightarrow> poller" where
  "fetch c s = s\<lparr>fetches := fetches s @ [c], inflight := inflight s @ [length (fetches s)]\<rparr>"

definition setInterval :: "nat \<Rightarrow> poller \<Rightarrow> nat \<times> poller" where
  "setInterval ms s =
     (next_timer s, s\<lparr>timers := timers s @ [(next_timer s, ms)], next_timer := Suc (next_timer s)\<rparr>)"

definition clearInterval :: "nat \<Rightarrow> poller \<Rightarrow> poller" where
  "clearInterval h s = s\<lparr>timers := filter (\<lambda>t. fst t \<noteq> h) (timers s)\<rparr>"

text \<open>
  A \<^verbatim>\<open>try { ... } catch (err) { ... }\<close> block over the state. A body that throws returns
  \<open>Inl\<close> of the error and of the state at the throw; the handler then runs from that state.
\<close>

definition try_catch ::
  "(poller \<Rightarrow> js_error \<times> poller + poller) \<Rightarrow> (js_error \<Rightarrow> poller \<Rightarrow> js_error \<times> poller + poller)
     \<Rightarrow> poller \<Rightarrow> js_error \<times> poller + poller" where
  "try_catch blk handler s = (case blk s of Inl (e, s') \<Rightarrow> handler e s' | Inr s' \<Rightarrow> Inr s')"

text \<open>
  \<^verbatim>\<open>checkHealth\<close> up to its \<^verbatim>\<open>await\<close>: the call \<^verbatim>\<open>fetch(backendHealthUrl)\<close>, with no options.
\<close>

definition checkHealth_request :: "string \<Rightarrow> fetch_call" where
  "checkHealth_request url = \<lparr>fc_url = url, fc_init = None\<rparr>"

definition checkHealth_call :: "string \<Rightarrow> poller \<Rightarrow> poller" where
  "checkHealth_call url s = fetch (checkHealth_request url) s"

text \<open>
  \<^verbatim>\<open>checkHealth\<close> from its \<^verbatim>\<open>await\<close> on, once the promise has settled with \<open>r\<close>: a rejection
  is thrown inside the \<^verbatim>\<open>try\<close>, a response reaches \<^verbatim>\<open>setIsHealthy(res.ok)\<close>; the \<^verbatim>\<open>catch\<close>
  logs the error and calls \<^verbatim>\<open>setIsHealthy(false)\<close>. The code is the same whether or not its
  instance is still mounted: it makes no check of its own, and \<open>setter\<close> is the setter of
  the instance that started the probe.
\<close>

definition checkHealth_settled ::
  "(bool \<Rightarrow> poller \<Rightarrow> poller) \<Rightarrow> js_error + response \<Rightarrow> poller \<Rightarrow> js_error \<times> poller + poller" where
  "checkHealth_settled setter r =
     try_catch
       (\<lambda>s. case r of Inl e \<Rightarrow> Inl (e, s) | Inr res \<Rightarrow> Inr (setter (ok res) s))
       (\<lambda>err s. Inr (setter False (console_error err s)))"

text \<open>The continuation of a probe of the mounted instance, and of a probe of a removed one.\<close>

definition checkHealth_resume :: "js_error + response \<Rightarrow> poller \<Rightarrow> js_error \<times> poller + poller" where
  "checkHealth_resume r = checkHealth_settled setIsHealthy r"

definition checkHealth_resume_unmounted ::
  "js_error + response \<Rightarrow> poller \<Rightarrow> js_error \<times> poller + poller" where
  "checkHealth_resume_unmounted r = checkHealth_settled setIsHealthy_unmounted r"

text \<open>
  The callback of \<^verbatim>\<open>useEffect\<close>; it returns the cleanup: \<open>None\<close> for the early \<^verbatim>\<open>return\<close>
  on a falsy URL, otherwise the interval to clear.
\<close>

definition effect :: "string \<Rightarrow> poller \<Rightarrow> nat option \<times> poller" where
  "effect url s =
     (if url = '''' then (None, s)
      else
        let s1 = checkHealth_call url s;
            (interval, s2) = setInterval 10000 s1
        in (Some interval, s2))"

definition cleanup :: "nat option \<Rightarrow> poller \<Rightarrow> poller" where
  "cleanup c s = (case c of None \<Rightarrow> s | Some interval \<Rightarrow> clearInterval interval s)"

text \<open>An error that leaves an async function nobody awaits is an unhandled rejection.\<close>

definition settle :: "js_error \<times> poller + poller \<Rightarrow> poller" where
  "settle r = (case r of Inl (e, s) \<Rightarrow> s\<lparr>unhandled := unhandled s @ [e]\<rparr> | Inr s \<Rightarrow> s)"

text \<open>
  What can happen:
  \<^item> \<open>Mount\<close>: a new instance is mounted; its state starts from \<^verbatim>\<open>null\<close> and its effect runs
    (the dependency list is empty, so only now);
  \<^item> \<open>Unmount\<close>: the mounted instance is removed; the cleanup of its effect runs, and its
    probes still in flight stay behind as detached ones;
  \<^item> \<open>Tick h\<close>: the interval \<open>h\<close> fires and calls \<^verbatim>\<open>checkHealth\<close>;
  \<^item> \<open>Resolve p r\<close>: the promise of probe \<open>p\<close> settles with \<open>r\<close> and the \<^verbatim>\<open>checkHealth\<close>
    waiting on it goes on, with the setter of the mounted instance for a probe in flight
    and with the setter of a removed instance for a detached one.
\<close>

datatype event = Mount | Unmount | Tick nat | Resolve nat "js_error + response"

text \<open>
  One event. \<open>None\<close> says that the event cannot happen in this state: an instance is mounted
  only while none is, and removed only while one is, an interval fires only while it is
  active, and a promise settles once.
\<close>

fun step :: "string \<Rightarrow> event \<Rightarrow> poller \<Rightarrow> poller option" where
  "step url Mount s =
     (case lifecycle s of
        Unmounted \<Rightarrow>
          (let (c, s') = effect url (useState_null s) in Some (s'\<lparr>lifecycle := Mounted c\<rparr>))
      | Mounted c \<Rightarrow> None)"
| "step url Unmount s =
     (case lifecycle s of
        Unmounted \<Rightarrow> None
      | Mounted c \<Rightarrow>
          Some ((cleanup c s)\<lparr>lifecycle := Unmounted,
                  detached := detached s @ inflight s, inflight := []\<rparr>))"
| "step url (Tick h) s =
     (if h \<in> set (map fst (timers s)) then Some (checkHealth_call url s) else None)"
| "step url (Resolve p r) s =
     (if p \<in> set (inflight s)
      then Some (settle (checkHealth_resume r (s\<lparr>inflight := removeAll p (inflight s)\<rparr>)))
      else if p \<in> set (detached s)
      then Some (settle (checkHealth_resume_unmounted r (s\<lparr>detached := removeAll p (detached s)\<rparr>)))
      else None)"

fun run :: "string \<Rightarrow> event list \<Rightarrow> poller \<Rightarrow> poller option" where
  "run url [] s = Some s"
| "run url (e # es) s = (case step url e s of None \<Rightarrow> None | Some s' \<Rightarrow> run url es s')"

text \<open>
  The render part of the component: it reads \<open>isHealthy\<close> and returns a tree; the state is
  passed through, since the body performs no call besides the two hooks.
\<close>

definition render :: "bool option \<Rightarrow> jsx" where
  "render h =
     (case h of
        None \<Rightarrow> Elem ''span'' ''text-gray-500'' [Text ''Checking...'']
      | Some b \<Rightarrow>
          Elem ''div'' ''flex items-center gap-2''
            [Elem ''div'' (''h-3 w-3 rounded-full '' @ (if b then ''bg-green-500'' else ''bg-red-500'')) [],
             Elem ''span'' ''text-sm'' [Text (if b then ''Backend healthy'' else ''Backend down'')]])"

definition HealthStatus :: "poller \<Rightarrow> jsx \<times> poller" where
  "HealthStatus s = (render (isHealthy s), s)"

section \<open>The server components\<close>

text \<open>
  A server component is one async function. The network is a function from the call to the
  settled promise. A component returns its tree, or \<open>Inl\<close> of the error that leaves it.
\<close>

definition HealthStatusServer_request :: "string option \<Rightarrow> fetch_call" where
  "HealthStatusServer_request env =
     \<lparr>fc_url = (case env of None \<Rightarrow> ''undefined'' | Some u \<Rightarrow> u),
      fc_init = Some \<lparr>init_method = None, init_cache = Some NoStore\<rparr>\<rparr>"

definition HealthStatusServer :: "string option \<Rightarrow> (fetch_call \<Rightarrow> js_error + response) \<Rightarrow> js_error + jsx" where
  "HealthStatusServer env net =
     (case net (HealthStatusServer_request env) of
        Inl e \<Rightarrow> Inl e
      | Inr res \<Rightarrow>
          let isHealthy = ok res in
          Inr (Elem ''div'' ''flex items-center gap-2''
                 [Elem ''div'' (''h-3 w-3 rounded-full '' @ (if isHealthy then ''bg-green-500'' else ''bg-red-500'')) [],
                  Elem ''span'' ''text-sm'' [Text (if isHealthy then ''Backend healthy'' else ''Backend down'')]]))"

text \<open>
  \<^verbatim>\<open>JsonStatusServer\<close>. \<^verbatim>\<open>??\<close> replaces only an absent variable. \<open>res_json\<close> is \<^verbatim>\<open>res.json()\<close>
  on the body (it throws on a malformed document) and \<open>stringify\<close> is
  \<^verbatim>\<open>JSON.stringify(data, null, 2)\<close>; both belong to the platform and are parameters.
\<close>

definition JsonStatusServer_request :: "string option \<Rightarrow> fetch_call" where
  "JsonStatusServer_request env =
     \<lparr>fc_url = (case env of None \<Rightarrow> ''http://api-service:3000/api/content/data'' | Some u \<Rightarrow> u),
      fc_init = Some \<lparr>init_method = None, init_cache = Some NoStore\<rparr>\<rparr>"

definition JsonStatusServer ::
  "(string \<Rightarrow> js_error + 'j) \<Rightarrow> ('j \<Rightarrow> string) \<Rightarrow> string option
     \<Rightarrow> (fetch_call \<Rightarrow> js_error + response) \<Rightarrow> js_error + jsx" where
  "JsonStatusServer res_json stringify env net =
     (case net (JsonStatusServer_request env) of
        Inl e \<Rightarrow> Inl e
      | Inr res \<Rightarrow>
          if \<not> ok res
          then Inr (Elem ''div'' ''text-sm text-red-500''
                      [Text ''Failed to fetch JSON: '', Num (status res), Text '' '', Text (statusText res)])
          else
            (case res_json (body res) of
               Inl e \<Rightarrow> Inl e
             | Inr data \<Rightarrow>
                 Inr (Elem ''div'' ''text-sm space-y-1''
                        [Elem ''h3'' ''font-semibold'' [Text ''Backend JSON Response''],
                         Elem ''pre'' '' p-2 rounded text-xs overflow-auto'' [Text (stringify data)]])))"

section \<open>Observations on event sequences\<close>

text \<open>
  The outcomes of the probes numbered from \<open>b\<close> on that settle during an event sequence, in
  completion order. With \<open>b\<close> the number of calls made before an instance was mounted, these
  are the probes of that instance.
\<close>

fun resolutions :: "nat \<Rightarrow> event list \<Rightarrow> (js_error + response) list" where
  "resolutions b [] = []"
| "resolutions b (Resolve p r # es) = (if b \<le> p then r # resolutions b es else resolutions b es)"
| "resolutions b (e # es) = resolutions b es"

text \<open>
  The outcome of a settled probe in the words of the specification: healthy exactly for a
  response with a status code from 200 to 299; any other status, and a thrown failure, is
  unhealthy.
\<close>

definition spec_outcome :: "js_error + response \<Rightarrow> bool" where
  "spec_outcome r = (case r of Inl e \<Rightarrow> False | Inr res \<Rightarrow> 200 \<le> status res \<and> status res \<le> 299)"

text \<open>The outcome of the probe, among those numbered from \<open>b\<close> on, that settled last, if any has.\<close>

definition last_resolved :: "nat \<Rightarrow> event list \<Rightarrow> bool option" where
  "last_resolved b evs =
     (case resolutions b evs of [] \<Rightarrow> None | r # rs \<Rightarrow> Some (spec_outcome (last (r # rs))))"

text \<open>
  The timers an instance holds are determined by its lifecycle: the one interval of the
  running effect, with period 10000, and none otherwise.
\<close>

definition timer_inv :: "poller \<Rightarrow> bool" where
  "timer_inv s = (timers s = (case lifecycle s of Unmounted \<Rightarrow> [] | Mounted None \<Rightarrow> [] | Mounted (Some h) \<Rightarrow> [(h, 10000)]))"

text \<open>A component that has never probed.\<close>

definition idle :: "poller \<Rightarrow> bool" where
  "idle s = (fetches s = [] \<and> inflight s = [] \<and> detached s = [] \<and> timers s = [] \<and> isHealthy s = None)"

text \<open>
  Every unsettled probe names a call that was made, and no probe of the mounted instance is
  left once it is unmounted.
\<close>

definition probes_inv :: "poller \<Rightarrow> bool" where
  "probes_inv s =
     (list_all (\<lambda>p. p < length (fetches s)) (inflight s)
      \<and> list_all (\<lambda>p. p < length (fetches s)) (detached s)
      \<and> (lifecycle s = Unmounted \<longrightarrow> inflight s = []))"

text \<open>
  During the life of an instance mounted when \<open>b\<close> calls had been made: its probes are
  numbered from \<open>b\<close> on, the detached ones below \<open>b\<close>.
\<close>

definition mounted_since :: "nat \<Rightarrow> poller \<Rightarrow> bool" where
  "mounted_since b s =
     (lifecycle s \<noteq> Unmounted \<and> b \<le> length (fetches s)
      \<and> list_all (\<lambda>p. b \<le> p) (inflight s)
      \<and> list_all (\<lambda>p. p < b) (detached s))"

text \<open>No instance is mounted, no timer is active and no probe of a mounted instance is left.\<close>

definition quiet :: "poller \<Rightarrow> bool" where
  "quiet s = (lifecycle s = Unmounted \<and> timers s = [] \<and> inflight s = [])"

section \<open>Example inputs\<close>

definition health_url :: string where
  "health_url = ''https://api.example.com/health''"

definition http :: "nat \<Rightarrow> string \<Rightarrow> response" where
  "http n t = \<lparr>status = n, statusText = t, body = ''''\<rparr>"

text \<open>A network on which every call fails, and one that answers every call with 503.\<close>

definition net_down :: "fetch_call \<Rightarrow> js_error + response" where
  "net_down c = Inl (JsError ''fetch failed'')"

definition net_unavailable :: "fetch_call \<Rightarrow> js_error + response" where
  "net_unavailable c = Inr (http 503 ''Service Unavailable'')"

section \<open>Basic facts about the operations\<close>

lemma checkHealth_resume_Inr:
  "checkHealth_resume (Inr res) s = Inr (setIsHealthy (ok res) s)"
  by (simp add: checkHealth_resume_def checkHealth_settled_def try_catch_def)

lemma checkHealth_resume_Inl:
  "checkHealth_resume (Inl e) s = Inr (setIsHealthy False (console_error e s))"
  by (simp add: checkHealth_resume_def checkHealth_settled_def try_catch_def)

lemma checkHealth_resume_unmounted_Inr:
  "checkHealth_resume_unmounted (Inr res) s = Inr s"
  by (simp add: checkHealth_resume_unmounted_def checkHealth_settled_def try_catch_def
      setIsHealthy_unmounted_def)

lemma checkHealth_resume_unmounted_Inl:
  "checkHealth_resume_unmounted (Inl e) s = Inr (console_error e s)"
  by (simp add: checkHealth_resume_unmounted_def checkHealth_settled_def try_catch_def
      setIsHealthy_unmounted_def)

lemmas eval_defs = initial_def effect_def cleanup_def clearInterval_def setInterval_def
  checkHealth_call_def checkHealth_request_def fetch_def settle_def checkHealth_resume_Inr
  checkHealth_resume_Inl checkHealth_resume_unmounted_Inr checkHealth_resume_unmounted_Inl
  useState_null_def setIsHealthy_def console_error_def ok_def health_url_def http_def

lemmas step_unfold = effect_def cleanup_def clearInterval_def setInterval_def checkHealth_call_def
  fetch_def settle_def checkHealth_resume_Inr checkHealth_resume_Inl
  checkHealth_resume_unmounted_Inr checkHealth_resume_unmounted_Inl
  useState_null_def setIsHealthy_def console_error_def

lemma run_Cons_Some:
  "run url (e # es) s = Some s' \<Longrightarrow> \<exists>t. step url e s = Some t \<and> run url es t = Some s'"
  by (simp split: option.splits)

lemma run_append:
  "run url (xs @ ys) s = (case run url xs s of None \<Rightarrow> None | Some t \<Rightarrow> run url ys t)"
  by (induction xs arbitrary: s) (simp_all split: option.splits)

lemma step_Mount:
  "lifecycle s = Unmounted \<Longrightarrow> url \<noteq> [] \<Longrightarrow>
   step url Mount s = Some (s\<lparr>isHealthy := None,
      fetches := fetches s @ [checkHealth_request url],
      inflight := inflight s @ [length (fetches s)],
      timers := timers s @ [(next_timer s, 10000)],
      next_timer := Suc (next_timer s),
      lifecycle := Mounted (Some (next_timer s))\<rparr>)"
  by (simp add: effect_def checkHealth_call_def fetch_def setInterval_def useState_null_def)

lemma step_Mount_empty:
  "lifecycle s = Unmounted \<Longrightarrow>
   step [] Mount s = Some (s\<lparr>isHealthy := None, lifecycle := Mounted None\<rparr>)"
  by (simp add: effect_def useState_null_def)

lemma step_Unmount:
  "lifecycle s = Mounted c \<Longrightarrow>
   step url Unmount s =
     Some (s\<lparr>timers := (case c of None \<Rightarrow> timers s | Some h \<Rightarrow> filter (\<lambda>t. fst t \<noteq> h) (timers s)),
      lifecycle := Unmounted, detached := detached s @ inflight s, inflight := []\<rparr>)"
  by (simp add: cleanup_def clearInterval_def split: option.splits)

lemma step_Tick:
  "h \<in> set (map fst (timers s)) \<Longrightarrow>
   step url (Tick h) s = Some (s\<lparr>fetches := fetches s @ [checkHealth_request url],
      inflight := inflight s @ [length (fetches s)]\<rparr>)"
  by (simp add: checkHealth_call_def fetch_def)

lemma step_Resolve:
  "p \<in> set (inflight s) \<Longrightarrow>
   step url (Resolve p r) s = Some (s\<lparr>inflight := removeAll p (inflight s),
      console := console s @ (case r of Inl e \<Rightarrow> [e] | Inr res \<Rightarrow> []),
      isHealthy := Some (spec_outcome r)\<rparr>)"
  by (cases r) (simp_all add: checkHealth_resume_Inr checkHealth_resume_Inl settle_def
      setIsHealthy_def console_error_def spec_outcome_def ok_def)

lemma step_Resolve_detached:
  "p \<notin> set (inflight s) \<Longrightarrow> p \<in> set (detached s) \<Longrightarrow>
   step url (Resolve p r) s = Some (s\<lparr>detached := removeAll p (detached s),
      console := console s @ (case r of Inl e \<Rightarrow> [e] | Inr res \<Rightarrow> [])\<rparr>)"
  by (cases r) (simp_all add: checkHealth_resume_unmounted_Inr checkHealth_resume_unmounted_Inl
      settle_def console_error_def)

text \<open>Every enabled step is one of six, each with its result written out.\<close>

lemma step_Some:
  assumes "step url e s = Some s'"
  shows "(e = Mount \<and> lifecycle s = Unmounted \<and> url = [] \<and>
         s' = s\<lparr>isHealthy := None, lifecycle := Mounted None\<rparr>)
    \<or> (e = Mount \<and> lifecycle s = Unmounted \<and> url \<noteq> [] \<and>
         s' = s\<lparr>isHealthy := None,
            fetches := fetches s @ [checkHealth_request url],
            inflight := inflight s @ [length (fetches s)],
            timers := timers s @ [(next_timer s, 10000)],
            next_timer := Suc (next_timer s),
            lifecycle := Mounted (Some (next_timer s))\<rparr>)
    \<or> (\<exists>c. e = Unmount \<and> lifecycle s = Mounted c \<and>
         s' = s\<lparr>timers := (case c of None \<Rightarrow> timers s | Some h \<Rightarrow> filter (\<lambda>t. fst t \<noteq> h) (timers s)),
            lifecycle := Unmounted, detached := detached s @ inflight s, inflight := []\<rparr>)
    \<or> (\<exists>h. e = Tick h \<and> h \<in> set (map fst (timers s)) \<and>
         s' = s\<lparr>fetches := fetches s @ [checkHealth_request url],
            inflight := inflight s @ [length (fetches s)]\<rparr>)
    \<or> (\<exists>p r. e = Resolve p r \<and> p \<in> set (inflight s) \<and>
         s' = s\<lparr>inflight := removeAll p (inflight s),
            console := console s @ (case r of Inl e \<Rightarrow> [e] | Inr res \<Rightarrow> []),
            isHealthy := Some (spec_outcome r)\<rparr>)
    \<or> (\<exists>p r. e = Resolve p r \<and> p \<notin> set (inflight s) \<and> p \<in> set (detached s) \<and>
         s' = s\<lparr>detached := removeAll p (detached s),
            console := console s @ (case r of Inl e \<Rightarrow> [e] | Inr res \<Rightarrow> [])\<rparr>)"
proof (cases e)
  case Mount
  show ?thesis
  proof (cases "lifecycle s")
    case Unmounted
    then show ?thesis
      using assms Mount step_Mount[OF Unmounted, of url] step_Mount_empty[OF Unmounted]
      by (cases "url = []") auto
  next
    case (Mounted c)
    with assms Mount show ?thesis by simp
  qed
next
  case Unmount
  show ?thesis
  proof (cases "lifecycle s")
    case Unmounted
    with assms Unmount show ?thesis by simp
  next
    case (Mounted c)
    then show ?thesis
      using assms Unmount step_Unmount[OF Mounted, of url] by auto
  qed
next
  case (Tick h)
  show ?thesis
  proof (cases "h \<in> set (map fst (timers s))")
    case True
    then show ?thesis using assms Tick step_Tick[OF True, of url] by auto
  next
    case False
    with assms Tick show ?thesis by simp
  qed
next
  case (Resolve p r)
  show ?thesis
  proof (cases "p \<in> set (inflight s)")
    case True
    then show ?thesis using assms Resolve step_Resolve[OF True, of url r] by auto
  next
    case False
    note notin = this
    show ?thesis
    proof (cases "p \<in> set (detached s)")
      case True
      then show ?thesis
        using assms Resolve notin step_Resolve_detached[OF notin True, of url r] by auto
    next
      case False
      with assms Resolve notin show ?thesis by simp
    qed
  qed
qed

lemma timer_inv_step: "timer_inv s \<Longrightarrow> step url e s = Some s' \<Longrightarrow> timer_inv s'"
  by (drule step_Some) (auto simp: timer_inv_def split: option.splits)

lemma timer_inv_run: "timer_inv s \<Longrightarrow> run url es s = Some s' \<Longrightarrow> timer_inv s'"
proof (induction es arbitrary: s)
  case Nil
  then show ?case by simp
next
  case (Cons e es)
  from run_Cons_Some[OF Cons.prems(2)] obtain t where t: "step url e s = Some t" "run url es t = Some s'"
    by blast
  from Cons.prems(1) t(1) have "timer_inv t" by (rule timer_inv_step)
  then show ?case using t(2) by (rule Cons.IH)
qed

lemma timer_inv_initial: "timer_inv initial"
  by (simp add: timer_inv_def initial_def)

lemma unhandled_step: "step url e s = Some s' \<Longrightarrow> unhandled s' = unhandled s"
  by (drule step_Some) auto

lemma unhandled_run: "run url es s = Some s' \<Longrightarrow> unhandled s' = unhandled s"
proof (induction es arbitrary: s)
  case Nil
  then show ?case by simp
next
  case (Cons e es)
  from run_Cons_Some[OF Cons.prems] obtain t where t: "step url e s = Some t" "run url es t = Some s'"
    by blast
  from Cons.IH[OF t(2)] unhandled_step[OF t(1)] show ?case by simp
qed

lemma probes_inv_step:
  "probes_inv s \<Longrightarrow> timer_inv s \<Longrightarrow> step url e s = Some s' \<Longrightarrow> probes_inv s'"
  by (drule step_Some) (auto simp: probes_inv_def timer_inv_def list_all_iff less_Suc_eq)

lemma probes_inv_run:
  "probes_inv s \<Longrightarrow> timer_inv s \<Longrightarrow> run url es s = Some s' \<Longrightarrow> probes_inv s'"
proof (induction es arbitrary: s)
  case Nil
  then show ?case by simp
next
  case (Cons e es)
  from run_Cons_Some[OF Cons.prems(3)] obtain t where t: "step url e s = Some t" "run url es t = Some s'"
    by blast
  from Cons.prems(1,2) t(1) have "probes_inv t" by (rule probes_inv_step)
  moreover from Cons.prems(2) t(1) have "timer_inv t" by (rule timer_inv_step)
  ultimately show ?case using t(2) by (rule Cons.IH)
qed

lemma probes_inv_initial: "probes_inv initial"
  by (simp add: probes_inv_def initial_def)

text \<open>Mounting an instance when \<open>b\<close> calls have been made starts its life, with no status.\<close>

lemma mounted_since_Mount:
  assumes "probes_inv s" and "lifecycle s = Unmounted" and "step url Mount s = Some s'"
  shows "mounted_since (length (fetches s)) s' \<and> isHealthy s' = None"
  using step_Some[OF assms(3)] assms(1,2)
  by (auto simp: mounted_since_def probes_inv_def)

text \<open>
  During that life a step changes the status only when one of the instance's own probes
  settles, and then to the outcome of that probe.
\<close>

lemma mounted_since_step:
  assumes "mounted_since b s" and "e \<noteq> Unmount" and "step url e s = Some s'"
  shows "mounted_since b s' \<and>
     isHealthy s' = (case resolutions b [e] of [] \<Rightarrow> isHealthy s | r # rs \<Rightarrow> Some (spec_outcome r))"
  using step_Some[OF assms(3)] assms(1,2)
  by (auto simp: mounted_since_def list_all_iff)

lemma resolutions_Cons: "resolutions b (e # es) = resolutions b [e] @ resolutions b es"
  by (cases e) simp_all

lemma mounted_since_run:
  assumes "mounted_since b s" and "Unmount \<notin> set es" and "run url es s = Some s'"
  shows "isHealthy s' =
     (case resolutions b es of [] \<Rightarrow> isHealthy s | r # rs \<Rightarrow> Some (spec_outcome (last (r # rs))))"
  using assms
proof (induction es arbitrary: s)
  case Nil
  then show ?case by simp
next
  case (Cons e es)
  from run_Cons_Some[OF Cons.prems(3)] obtain t where t: "step url e s = Some t" "run url es t = Some s'"
    by blast
  from Cons.prems(2) have ne: "e \<noteq> Unmount" and nes: "Unmount \<notin> set es" by auto
  from mounted_since_step[OF Cons.prems(1) ne t(1)]
  have m: "mounted_since b t"
    and h: "isHealthy t = (case resolutions b [e] of [] \<Rightarrow> isHealthy s | r # rs \<Rightarrow> Some (spec_outcome r))"
    by auto
  have IH: "isHealthy s' =
     (case resolutions b es of [] \<Rightarrow> isHealthy t | r # rs \<Rightarrow> Some (spec_outcome (last (r # rs))))"
    using m nes t(2) by (rule Cons.IH)
  show ?case
    unfolding resolutions_Cons[of b e es] using IH h
    by (cases e) (auto split: list.splits if_splits)
qed

lemma idle_step: "idle s \<Longrightarrow> step [] e s = Some s' \<Longrightarrow> idle s'"
  by (drule step_Some) (auto simp: idle_def split: option.splits)

lemma idle_run: "idle s \<Longrightarrow> run [] es s = Some s' \<Longrightarrow> idle s'"
proof (induction es arbitrary: s)
  case Nil
  then show ?case by simp
next
  case (Cons e es)
  from run_Cons_Some[OF Cons.prems(2)] obtain t where t: "step [] e s = Some t" "run [] es t = Some s'"
    by blast
  from Cons.IH[OF idle_step[OF Cons.prems(1) t(1)] t(2)] show ?case .
qed

lemma fetches_step:
  "step url e s = Some s' \<Longrightarrow> set (fetches s') \<subseteq> insert (checkHealth_request url) (set (fetches s))"
  by (drule step_Some) auto

lemma fetches_run:
  "run url es s = Some s' \<Longrightarrow> set (fetches s') \<subseteq> insert (checkHealth_request url) (set (fetches s))"
proof (induction es arbitrary: s)
  case Nil
  then show ?case by auto
next
  case (Cons e es)
  from run_Cons_Some[OF Cons.prems] obtain t where t: "step url e s = Some t" "run url es t = Some s'"
    by blast
  from fetches_step[OF t(1)] Cons.IH[OF t(2)] show ?case by auto
qed

text \<open>In a quiet state a step other than \<open>Mount\<close> issues nothing and keeps the status.\<close>

lemma quiet_step:
  "quiet s \<Longrightarrow> e \<noteq> Mount \<Longrightarrow> step url e s = Some s' \<Longrightarrow>
     quiet s' \<and> fetches s' = fetches s \<and> isHealthy s' = isHealthy s"
  by (drule step_Some) (auto simp: quiet_def)

lemma quiet_run:
  "quiet s \<Longrightarrow> Mount \<notin> set es \<Longrightarrow> run url es s = Some s' \<Longrightarrow>
     quiet s' \<and> fetches s' = fetches s \<and> isHealthy s' = isHealthy s"
proof (induction es arbitrary: s)
  case Nil
  then show ?case by simp
next
  case (Cons e es)
  from run_Cons_Some[OF Cons.prems(3)] obtain t where t: "step url e s = Some t" "run url es t = Some s'"
    by blast
  from Cons.prems have "e \<noteq> Mount" "Mount \<notin> set es" by auto
  from quiet_step[OF Cons.prems(1) this(1) t(1)]
  have q: "quiet t" "fetches t = fetches s" "isHealthy t = isHealthy s" by auto
  from Cons.IH[OF q(1) \<open>Mount \<notin> set es\<close> t(2)] q(2,3) show ?case by simp
qed

lemma run_ticks:
  "url \<noteq> [] \<Longrightarrow> run url (Mount # replicate n (Tick 0)) initial =
     Some (initial\<lparr>fetches := replicate (Suc n) (checkHealth_request url),
        inflight := [0..<Suc n], timers := [(0, 10000)], next_timer := Suc 0,
        lifecycle := Mounted (Some 0)\<rparr>)"
proof (induction n)
  case 0
  then show ?case by (simp add: initial_def step_unfold)
next
  case (Suc n)
  have "run url (Mount # replicate (Suc n) (Tick 0)) initial
      = run url ((Mount # replicate n (Tick 0)) @ [Tick 0]) initial"
    by (simp add: replicate_append_same)
  also have "\<dots> = step url (Tick 0) (initial\<lparr>fetches := replicate (Suc n) (checkHealth_request url),
        inflight := [0..<Suc n], timers := [(0, 10000)], next_timer := Suc 0,
        lifecycle := Mounted (Some 0)\<rparr>)"
    unfolding run_append Suc.IH[OF Suc.prems] by (simp split: option.splits)
  also have "\<dots> = Some (initial\<lparr>fetches := replicate (Suc (Suc n)) (checkHealth_request url),
        inflight := [0..<Suc (Suc n)], timers := [(0, 10000)], next_timer := Suc 0,
        lifecycle := Mounted (Some 0)\<rparr>)"
    by (simp add: step_unfold replicate_append_same)
  finally show ?case .
qed

section \<open>The claims\<close>

subsection \<open>C1: deactivation and probes in flight\<close>

text \<open>
  C1: once the instance is unmounted, its status stays what it was at that moment, whatever
  happens afterwards while no new instance is mounted: no interval is active, no further
  probe is issued, and each probe that was in flight can still settle, but then
  \<^verbatim>\<open>checkHealth\<close> calls the setter of the removed instance, the call is discarded, and the
  status and the tree it renders to are unchanged. The witness is Scenario E of the
  specification: the instance is unmounted with its first probe in flight, the probe
  settles with status 200, and the status is still unknown.
\<close>

theorem unmount_freezes_status:
  assumes "run url evs1 initial = Some s"
    and "step url Unmount s = Some u"
    and "Mount \<notin> set evs2"
    and "run url evs2 u = Some s'"
  shows "isHealthy u = isHealthy s
     \<and> isHealthy s' = isHealthy u
     \<and> fst (HealthStatus s') = fst (HealthStatus u)
     \<and> timers s' = [] \<and> fetches s' = fetches u
     \<and> (p \<in> set (inflight s) \<longrightarrow>
          (\<exists>t. step url (Resolve p r) u = Some t \<and> isHealthy t = isHealthy u))"
proof -
  have "timer_inv s" using timer_inv_initial assms(1) by (rule timer_inv_run)
  then have inv: "timer_inv u" using assms(2) by (rule timer_inv_step)
  from step_Some[OF assms(2)]
  have u: "lifecycle u = Unmounted" "inflight u = []" "isHealthy u = isHealthy s"
    "detached u = detached s @ inflight s"
    by auto
  from inv u(1) have "timers u = []" by (simp add: timer_inv_def)
  with u(1,2) have q: "quiet u" by (simp add: quiet_def)
  from quiet_run[OF q assms(3,4)]
  have after: "timers s' = []" "fetches s' = fetches u" "isHealthy s' = isHealthy u"
    by (simp_all add: quiet_def)
  have "\<exists>t. step url (Resolve p r) u = Some t \<and> isHealthy t = isHealthy u"
    if p: "p \<in> set (inflight s)"
  proof -
    from u(2) have n: "p \<notin> set (inflight u)" by simp
    from p u(4) have d: "p \<in> set (detached u)" by simp
    show ?thesis unfolding step_Resolve_detached[OF n d] by simp
  qed
  with u(3) after show ?thesis by (simp add: HealthStatus_def)
qed

theorem unmount_freezes_status_witness:
  "run health_url [Mount] initial =
     Some \<lparr>isHealthy = None, lifecycle = Mounted (Some 0), timers = [(0, 10000)], next_timer = 1,
       fetches = [\<lparr>fc_url = health_url, fc_init = None\<rparr>], inflight = [0], detached = [],
       console = [], unhandled = []\<rparr>
   \<and> step health_url Unmount
       \<lparr>isHealthy = None, lifecycle = Mounted (Some 0), timers = [(0, 10000)], next_timer = 1,
       fetches = [\<lparr>fc_url = health_url, fc_init = None\<rparr>], inflight = [0], detached = [],
       console = [], unhandled = []\<rparr> =
     Some \<lparr>isHealthy = None, lifecycle = Unmounted, timers = [], next_timer = 1,
       fetches = [\<lparr>fc_url = health_url, fc_init = None\<rparr>], inflight = [], detached = [0],
       console = [], unhandled = []\<rparr>
   \<and> Mount \<notin> set [Resolve 0 (Inr (http 200 ''OK''))]
   \<and> run health_url [Resolve 0 (Inr (http 200 ''OK''))]
       \<lparr>isHealthy = None, lifecycle = Unmounted, timers = [], next_timer = 1,
       fetches = [\<lparr>fc_url = health_url, fc_init = None\<rparr>], inflight = [], detached = [0],
       console = [], unhandled = []\<rparr> =
     Some \<lparr>isHealthy = None, lifecycle = Unmounted, timers = [], next_timer = 1,
       fetches = [\<lparr>fc_url = health_url, fc_init = None\<rparr>], inflight = [], detached = [],
       console = [], unhandled = []\<rparr>
   \<and> 0 \<in> set (inflight
       \<lparr>isHealthy = None, lifecycle = Mounted (Some 0), timers = [(0, 10000)], next_timer = 1,
       fetches = [\<lparr>fc_url = health_url, fc_init = None\<rparr>], inflight = [0], detached = [],
       console = [], unhandled = []\<rparr>)
   \<and> isHealthy
       \<lparr>isHealthy = None, lifecycle = Unmounted, timers = [], next_timer = 1,
       fetches = [\<lparr>fc_url = health_url, fc_init = None\<rparr>], inflight = [], detached = [],
       console = [], unhandled = []\<rparr> = None
   \<and> fst (HealthStatus
       \<lparr>isHealthy = None, lifecycle = Unmounted, timers = [], next_timer = 1,
       fetches = [\<lparr>fc_url = health_url, fc_init = None\<rparr>], inflight = [], detached = [],
       console = [], unhandled = []\<rparr>) = Elem ''span'' ''text-gray-500'' [Text ''Checking...'']"
proof -
  let ?s = "\<lparr>isHealthy = None, lifecycle = Mounted (Some 0), timers = [(0, 10000)], next_timer = 1,
       fetches = [\<lparr>fc_url = health_url, fc_init = None\<rparr>], inflight = [0], detached = [],
       console = [], unhandled = []\<rparr>"
  let ?u = "\<lparr>isHealthy = None, lifecycle = Unmounted, timers = [], next_timer = 1,
       fetches = [\<lparr>fc_url = health_url, fc_init = None\<rparr>], inflight = [], detached = [0],
       console = [], unhandled = []\<rparr>"
  let ?t = "\<lparr>isHealthy = None, lifecycle = Unmounted, timers = [], next_timer = 1,
       fetches = [\<lparr>fc_url = health_url, fc_init = None\<rparr>], inflight = [], detached = [],
       console = [], unhandled = []\<rparr>"
  have h1: "run health_url [Mount] initial = Some ?s" by (simp add: eval_defs)
  have h2: "step health_url Unmount ?s = Some ?u" by (simp add: eval_defs)
  have h3: "Mount \<notin> set [Resolve 0 (Inr (http 200 ''OK''))]" by simp
  have h4: "run health_url [Resolve 0 (Inr (http 200 ''OK''))] ?u = Some ?t"
    by (simp add: eval_defs)
  have h5: "0 \<in> set (inflight ?s)" by simp
  from unmount_freezes_status[OF h1 h2 h3 h4, where p = 0 and r = "Inr (http 200 ''OK'')"]
    h1 h2 h3 h4 h5
  show ?thesis by (simp add: HealthStatus_def render_def)
qed

subsection \<open>C2: the outcome of a completed probe\<close>

text \<open>
  C2: a probe in flight can always complete, and when it does, a response with a status
  from 200 to 299 sets the status to healthy, any other response sets it to unhealthy, and a
  thrown failure is logged and sets it to unhealthy; no error leaves \<^verbatim>\<open>checkHealth\<close>, in
  this step or anywhere in a run from the initial state.
\<close>

theorem probe_completion:
  "(p \<in> set (inflight s) \<longrightarrow>
      (\<exists>s'. step url (Resolve p r) s = Some s'
         \<and> isHealthy s' = Some (case r of Inl e \<Rightarrow> False | Inr res \<Rightarrow> 200 \<le> status res \<and> status res \<le> 299)
         \<and> console s' = console s @ (case r of Inl e \<Rightarrow> [e] | Inr res \<Rightarrow> [])
         \<and> unhandled s' = unhandled s))
   \<and> (run url evs initial = Some t \<longrightarrow> unhandled t = [])"
proof (intro conjI impI)
  assume p: "p \<in> set (inflight s)"
  show "\<exists>s'. step url (Resolve p r) s = Some s'
         \<and> isHealthy s' = Some (case r of Inl e \<Rightarrow> False | Inr res \<Rightarrow> 200 \<le> status res \<and> status res \<le> 299)
         \<and> console s' = console s @ (case r of Inl e \<Rightarrow> [e] | Inr res \<Rightarrow> [])
         \<and> unhandled s' = unhandled s"
    unfolding step_Resolve[OF p] by (simp add: spec_outcome_def)
next
  assume "run url evs initial = Some t"
  then have "unhandled t = unhandled initial" by (rule unhandled_run)
  then show "unhandled t = []" by (simp add: initial_def)
qed

theorem probe_completion_witness:
  "run health_url [Mount] initial =
     Some \<lparr>isHealthy = None, lifecycle = Mounted (Some 0), timers = [(0, 10000)], next_timer = 1,
       fetches = [\<lparr>fc_url = health_url, fc_init = None\<rparr>], inflight = [0], detached = [],
       console = [], unhandled = []\<rparr>
   \<and> 0 \<in> set (inflight
       \<lparr>isHealthy = None, lifecycle = Mounted (Some 0), timers = [(0, 10000)], next_timer = 1,
       fetches = [\<lparr>fc_url = health_url, fc_init = None\<rparr>], inflight = [0], detached = [],
       console = [], unhandled = []\<rparr>)
   \<and> (\<exists>s'. step health_url (Resolve 0 (Inr (http 404 ''Not Found'')))
       \<lparr>isHealthy = None, lifecycle = Mounted (Some 0), timers = [(0, 10000)], next_timer = 1,
       fetches = [\<lparr>fc_url = health_url, fc_init = None\<rparr>], inflight = [0], detached = [],
       console = [], unhandled = []\<rparr> = Some s'
         \<and> isHealthy s' = Some False \<and> console s' = [] \<and> unhandled s' = [])
   \<and> run health_url [Mount, Resolve 0 (Inl (JsError ''Failed to fetch''))] initial =
       Some \<lparr>isHealthy = Some False, lifecycle = Mounted (Some 0), timers = [(0, 10000)], next_timer = 1,
         fetches = [\<lparr>fc_url = health_url, fc_init = None\<rparr>], inflight = [], detached = [],
         console = [JsError ''Failed to fetch''], unhandled = []\<rparr>
   \<and> unhandled \<lparr>isHealthy = Some False, lifecycle = Mounted (Some 0), timers = [(0, 10000)], next_timer = 1,
         fetches = [\<lparr>fc_url = health_url, fc_init = None\<rparr>], inflight = [], detached = [],
         console = [JsError ''Failed to fetch''], unhandled = []\<rparr> = []"
proof -
  let ?s = "\<lparr>isHealthy = None, lifecycle = Mounted (Some 0), timers = [(0, 10000)], next_timer = 1,
       fetches = [\<lparr>fc_url = health_url, fc_init = None\<rparr>], inflight = [0], detached = [],
       console = [], unhandled = []\<rparr>"
  have h0: "run health_url [Mount] initial = Some ?s" by (simp add: eval_defs)
  have h1: "0 \<in> set (inflight ?s)" by simp
  have h2: "run health_url [Mount, Resolve 0 (Inl (JsError ''Failed to fetch''))] initial =
       Some \<lparr>isHealthy = Some False, lifecycle = Mounted (Some 0), timers = [(0, 10000)], next_timer = 1,
         fetches = [\<lparr>fc_url = health_url, fc_init = None\<rparr>], inflight = [], detached = [],
         console = [JsError ''Failed to fetch''], unhandled = []\<rparr>"
    by (simp add: eval_defs)
  from probe_completion[where p = 0 and s = ?s and url = health_url
      and r = "Inr (http 404 ''Not Found'')"
      and evs = "[Mount, Resolve 0 (Inl (JsError ''Failed to fetch''))]"] h0 h1 h2
  show ?thesis by (simp add: eval_defs)
qed

subsection \<open>C3: the latest resolved probe wins\<close>

text \<open>
  C3: take an instance mounted after any earlier history, and any events during its life
  (up to, and not including, its unmounting). The status it stores, and the tree the
  component renders, are those of the outcome of its probe that settled last, in the order
  of completion and not of issue; they are unknown and "Checking..." while none has
  settled. Each of its probes that settles overwrites the status, whatever it was. The
  probes of the instance are those numbered from the number of calls made before it was
  mounted; probes of earlier, removed instances that settle meanwhile do not count. In the
  witness the instance issues probes 1 and 2, probe 2 settles first (200), the probe 0 of
  the earlier instance settles (200), then probe 1 settles (500): the component shows
  "Backend down".
\<close>

theorem latest_resolved_wins:
  assumes "run url pre initial = Some st"
    and "lifecycle st = Unmounted"
    and "Unmount \<notin> set evs"
    and "run url (Mount # evs) st = Some s"
  shows "isHealthy s = last_resolved (length (fetches st)) evs
     \<and> fst (HealthStatus s) = render (last_resolved (length (fetches st)) evs)
     \<and> text_content (fst (HealthStatus s)) =
          (case last_resolved (length (fetches st)) evs of
             None \<Rightarrow> ''Checking...''
           | Some healthy \<Rightarrow> if healthy then ''Backend healthy'' else ''Backend down'')"
proof -
  have inv: "probes_inv st"
    using probes_inv_initial timer_inv_initial assms(1) by (rule probes_inv_run)
  from run_Cons_Some[OF assms(4)] obtain m
    where m: "step url Mount st = Some m" "run url evs m = Some s"
    by blast
  from mounted_since_Mount[OF inv assms(2) m(1)]
  have since: "mounted_since (length (fetches st)) m" and none: "isHealthy m = None"
    by auto
  from mounted_since_run[OF since assms(3) m(2)] none
  have "isHealthy s = last_resolved (length (fetches st)) evs"
    by (simp add: last_resolved_def split: list.splits)
  then show ?thesis by (simp add: HealthStatus_def render_def split: option.splits)
qed

theorem latest_resolved_wins_witness:
  "run health_url [Mount, Unmount] initial =
     Some \<lparr>isHealthy = None, lifecycle = Unmounted, timers = [], next_timer = 1,
       fetches = [\<lparr>fc_url = health_url, fc_init = None\<rparr>], inflight = [], detached = [0],
       console = [], unhandled = []\<rparr>
   \<and> lifecycle
       \<lparr>isHealthy = None, lifecycle = Unmounted, timers = [], next_timer = 1,
       fetches = [\<lparr>fc_url = health_url, fc_init = None\<rparr>], inflight = [], detached = [0],
       console = [], unhandled = []\<rparr> = Unmounted
   \<and> Unmount \<notin> set [Tick 1, Resolve 2 (Inr (http 200 ''OK'')), Resolve 0 (Inr (http 200 ''OK'')),
         Resolve 1 (Inr (http 500 ''Internal Server Error''))]
   \<and> run health_url
       (Mount # [Tick 1, Resolve 2 (Inr (http 200 ''OK'')), Resolve 0 (Inr (http 200 ''OK'')),
         Resolve 1 (Inr (http 500 ''Internal Server Error''))])
       \<lparr>isHealthy = None, lifecycle = Unmounted, timers = [], next_timer = 1,
       fetches = [\<lparr>fc_url = health_url, fc_init = None\<rparr>], inflight = [], detached = [0],
       console = [], unhandled = []\<rparr> =
     Some \<lparr>isHealthy = Some False, lifecycle = Mounted (Some 1), timers = [(1, 10000)], next_timer = 2,
       fetches = replicate 3 \<lparr>fc_url = health_url, fc_init = None\<rparr>, inflight = [], detached = [],
       console = [], unhandled = []\<rparr>
   \<and> last_resolved 1 [Tick 1, Resolve 2 (Inr (http 200 ''OK'')), Resolve 0 (Inr (http 200 ''OK'')),
         Resolve 1 (Inr (http 500 ''Internal Server Error''))] = Some False
   \<and> text_content (fst (HealthStatus
       \<lparr>isHealthy = Some False, lifecycle = Mounted (Some 1), timers = [(1, 10000)], next_timer = 2,
       fetches = replicate 3 \<lparr>fc_url = health_url, fc_init = None\<rparr>, inflight = [], detached = [],
       console = [], unhandled = []\<rparr>)) = ''Backend down''"
proof -
  let ?st = "\<lparr>isHealthy = None, lifecycle = Unmounted, timers = [], next_timer = 1,
       fetches = [\<lparr>fc_url = health_url, fc_init = None\<rparr>], inflight = [], detached = [0],
       console = [], unhandled = []\<rparr>"
  let ?evs = "[Tick 1, Resolve 2 (Inr (http 200 ''OK'')), Resolve 0 (Inr (http 200 ''OK'')),
         Resolve 1 (Inr (http 500 ''Internal Server Error''))]"
  let ?s = "\<lparr>isHealthy = Some False, lifecycle = Mounted (Some 1), timers = [(1, 10000)], next_timer = 2,
       fetches = replicate 3 \<lparr>fc_url = health_url, fc_init = None\<rparr>, inflight = [], detached = [],
       console = [], unhandled = []\<rparr>"
  have h1: "run health_url [Mount, Unmount] initial = Some ?st" by (simp add: eval_defs)
  have h2: "lifecycle ?st = Unmounted" by simp
  have h3: "Unmount \<notin> set ?evs" by simp
  have h4: "run health_url (Mount # ?evs) ?st = Some ?s"
    by (simp add: eval_defs numeral_3_eq_3)
  have h5: "last_resolved 1 ?evs = Some False"
    by (simp add: last_resolved_def spec_outcome_def http_def)
  have h6: "text_content (fst (HealthStatus ?s)) = ''Backend down''"
    by (simp add: HealthStatus_def render_def)
  from latest_resolved_wins[OF h1 h2 h3 h4] h1 h2 h3 h4 h5 h6
  show ?thesis by - (intro conjI; assumption)
qed

subsection \<open>C4: an empty endpoint\<close>

text \<open>
  C4: when the environment variable is absent or empty, no event sequence issues a
  \<^verbatim>\<open>fetch\<close> or starts a timer, the status stays unknown and the component shows
  "Checking...".
\<close>

theorem empty_endpoint_never_probes:
  assumes "env = None \<or> env = Some ''''"
    and "run (backendHealthUrl env) evs initial = Some s"
  shows "fetches s = [] \<and> inflight s = [] \<and> timers s = [] \<and> isHealthy s = None
    \<and> fst (HealthStatus s) = Elem ''span'' ''text-gray-500'' [Text ''Checking...'']"
proof -
  from assms(1) have "backendHealthUrl env = []" by (auto simp: backendHealthUrl_def)
  with assms(2) have r: "run [] evs initial = Some s" by simp
  have "idle initial" by (simp add: idle_def initial_def)
  then have "idle s" using r by (rule idle_run)
  then show ?thesis by (simp add: idle_def HealthStatus_def render_def)
qed

theorem empty_endpoint_never_probes_witness:
  "((None :: string option) = None \<or> (None :: string option) = Some '''')
   \<and> run (backendHealthUrl None) [Mount, Unmount, Mount] initial =
       Some \<lparr>isHealthy = None, lifecycle = Mounted None, timers = [], next_timer = 0,
         fetches = [], inflight = [], detached = [], console = [], unhandled = []\<rparr>
   \<and> fst (HealthStatus \<lparr>isHealthy = None, lifecycle = Mounted None, timers = [], next_timer = 0,
         fetches = [], inflight = [], detached = [], console = [], unhandled = []\<rparr>) =
       Elem ''span'' ''text-gray-500'' [Text ''Checking...'']"
proof -
  have h1: "(None :: string option) = None \<or> (None :: string option) = Some ''''" by simp
  have h2: "run (backendHealthUrl None) [Mount, Unmount, Mount] initial =
       Some \<lparr>isHealthy = None, lifecycle = Mounted None, timers = [], next_timer = 0,
         fetches = [], inflight = [], detached = [], console = [], unhandled = []\<rparr>"
    by (simp add: eval_defs backendHealthUrl_def)
  from empty_endpoint_never_probes[OF h1 h2] h1 h2 show ?thesis by simp
qed

subsection \<open>C5: activation and the polling interval\<close>

text \<open>
  C5: with a non-empty endpoint, mounting an instance issues exactly one probe and starts
  one interval of 10000 ms whose callback is \<^verbatim>\<open>checkHealth\<close>, the status being unknown; each
  firing of the interval issues one more probe whether or not earlier probes have resolved
  and leaves them in flight: after \<open>n\<close> firings with no resolution, \<open>n + 1\<close> probes are in
  flight. Time itself is not part of the model; the period is the argument given to
  \<^verbatim>\<open>setInterval\<close>.
\<close>

theorem mount_probes_then_polls:
  assumes "url \<noteq> ''''"
  shows "(lifecycle st = Unmounted \<longrightarrow>
          (\<exists>s. step url Mount st = Some s
            \<and> fetches s = fetches st @ [checkHealth_request url]
            \<and> inflight s = inflight st @ [length (fetches st)]
            \<and> timers s = timers st @ [(next_timer st, 10000)]
            \<and> isHealthy s = None))
     \<and> (\<exists>s. run url (Mount # replicate n (Tick 0)) initial = Some s
            \<and> fetches s = replicate (Suc n) (checkHealth_request url)
            \<and> inflight s = [0..<Suc n] \<and> timers s = [(0, 10000)])
     \<and> (h \<in> set (map fst (timers t)) \<longrightarrow>
          (\<exists>s. step url (Tick h) t = Some s
            \<and> fetches s = fetches t @ [checkHealth_request url]
            \<and> inflight s = inflight t @ [length (fetches t)]
            \<and> timers s = timers t \<and> isHealthy s = isHealthy t))"
proof (intro conjI impI)
  assume u: "lifecycle st = Unmounted"
  show "\<exists>s. step url Mount st = Some s
            \<and> fetches s = fetches st @ [checkHealth_request url]
            \<and> inflight s = inflight st @ [length (fetches st)]
            \<and> timers s = timers st @ [(next_timer st, 10000)]
            \<and> isHealthy s = None"
    unfolding step_Mount[OF u assms] by simp
next
  show "\<exists>s. run url (Mount # replicate n (Tick 0)) initial = Some s
            \<and> fetches s = replicate (Suc n) (checkHealth_request url)
            \<and> inflight s = [0..<Suc n] \<and> timers s = [(0, 10000)]"
    unfolding run_ticks[OF assms] by simp
next
  assume h: "h \<in> set (map fst (timers t))"
  show "\<exists>s. step url (Tick h) t = Some s
            \<and> fetches s = fetches t @ [checkHealth_request url]
            \<and> inflight s = inflight t @ [length (fetches t)]
            \<and> timers s = timers t \<and> isHealthy s = isHealthy t"
    unfolding step_Tick[OF h] by simp
qed

theorem mount_probes_then_polls_witness:
  "health_url \<noteq> ''''
   \<and> lifecycle initial = Unmounted
   \<and> step health_url Mount initial =
       Some \<lparr>isHealthy = None, lifecycle = Mounted (Some 0), timers = [(0, 10000)], next_timer = 1,
         fetches = [checkHealth_request health_url], inflight = [0], detached = [], console = [], unhandled = []\<rparr>
   \<and> run health_url (Mount # replicate 2 (Tick 0)) initial =
       Some \<lparr>isHealthy = None, lifecycle = Mounted (Some 0), timers = [(0, 10000)], next_timer = 1,
         fetches = replicate 3 (checkHealth_request health_url), inflight = [0, 1, 2], detached = [],
         console = [], unhandled = []\<rparr>
   \<and> 0 \<in> set (map fst (timers
       \<lparr>isHealthy = None, lifecycle = Mounted (Some 0), timers = [(0, 10000)], next_timer = 1,
         fetches = [checkHealth_request health_url], inflight = [0], detached = [], console = [], unhandled = []\<rparr>))
   \<and> step health_url (Tick 0)
       \<lparr>isHealthy = None, lifecycle = Mounted (Some 0), timers = [(0, 10000)], next_timer = 1,
         fetches = [checkHealth_request health_url], inflight = [0], detached = [], console = [], unhandled = []\<rparr> =
       Some \<lparr>isHealthy = None, lifecycle = Mounted (Some 0), timers = [(0, 10000)], next_timer = 1,
         fetches = [checkHealth_request health_url, checkHealth_request health_url], inflight = [0, 1],
         detached = [], console = [], unhandled = []\<rparr>"
proof -
  have h1: "health_url \<noteq> ''''" by (simp add: health_url_def)
  let ?t = "\<lparr>isHealthy = None, lifecycle = Mounted (Some 0), timers = [(0, 10000)], next_timer = 1,
         fetches = [checkHealth_request health_url], inflight = [0], detached = [], console = [], unhandled = []\<rparr>"
  have h2: "0 \<in> set (map fst (timers ?t))" by simp
  have h3: "lifecycle initial = Unmounted" by (simp add: initial_def)
  from mount_probes_then_polls[OF h1, where n = 2 and h = 0 and st = initial and t = ?t] h1 h2 h3
  show ?thesis by (simp add: eval_defs numeral_2_eq_2 numeral_3_eq_3)
qed

subsection \<open>C6: rendering\<close>

text \<open>
  C6: the tree the component returns depends on the status alone and the state is left as
  it was: unknown shows "Checking...", healthy shows the green indicator with "Backend
  healthy", unhealthy shows the red indicator with "Backend down".
\<close>

theorem render_contract:
  "render None = Elem ''span'' ''text-gray-500'' [Text ''Checking...'']
   \<and> text_content (render None) = ''Checking...''
   \<and> text_content (render (Some True)) = ''Backend healthy''
   \<and> class_names (render (Some True)) = [''flex items-center gap-2'', ''h-3 w-3 rounded-full bg-green-500'', ''text-sm'']
   \<and> text_content (render (Some False)) = ''Backend down''
   \<and> class_names (render (Some False)) = [''flex items-center gap-2'', ''h-3 w-3 rounded-full bg-red-500'', ''text-sm'']
   \<and> fst (HealthStatus s) = render (isHealthy s)
   \<and> snd (HealthStatus s) = s"
  by (simp add: render_def HealthStatus_def)

subsection \<open>C7: at most one timer\<close>

text \<open>
  C7: after any sequence of activations, deactivations, firings and resolutions, at most one
  interval is active, and none is active while the instance is inactive.
\<close>

theorem at_most_one_timer:
  assumes "run url evs initial = Some s"
  shows "length (timers s) \<le> 1 \<and> (lifecycle s = Unmounted \<longrightarrow> timers s = [])"
proof -
  have "timer_inv s" using timer_inv_initial assms by (rule timer_inv_run)
  then show ?thesis by (auto simp: timer_inv_def split: lifecycle.splits option.splits)
qed

theorem at_most_one_timer_witness:
  "run health_url [Mount, Tick 0, Unmount, Mount, Tick 1, Unmount] initial =
     Some \<lparr>isHealthy = None, lifecycle = Unmounted, timers = [], next_timer = 2,
       fetches = replicate 4 \<lparr>fc_url = health_url, fc_init = None\<rparr>, inflight = [], detached = [0, 1, 2, 3],
       console = [], unhandled = []\<rparr>
   \<and> length (timers \<lparr>isHealthy = None, lifecycle = Unmounted, timers = [], next_timer = 2,
       fetches = replicate 4 \<lparr>fc_url = health_url, fc_init = None\<rparr>, inflight = [], detached = [0, 1, 2, 3],
       console = [], unhandled = []\<rparr>) \<le> 1"
proof -
  have h: "run health_url [Mount, Tick 0, Unmount, Mount, Tick 1, Unmount] initial =
     Some \<lparr>isHealthy = None, lifecycle = Unmounted, timers = [], next_timer = 2,
       fetches = replicate 4 \<lparr>fc_url = health_url, fc_init = None\<rparr>, inflight = [], detached = [0, 1, 2, 3],
       console = [], unhandled = []\<rparr>"
    by (simp add: eval_defs numeral_eq_Suc)
  from at_most_one_timer[OF h] h show ?thesis by simp
qed

subsection \<open>C8: the request of a probe\<close>

text \<open>
  C8 as stated: the claim says that every probe is made with no caching. The poller calls
  \<^verbatim>\<open>fetch(backendHealthUrl)\<close> with no options, so the request has the default cache mode;
  only the server components pass \<^verbatim>\<open>cache: "no-store"\<close>.
\<close>

theorem probe_cache_counterexample:
  "run health_url [Mount] initial =
     Some \<lparr>isHealthy = None, lifecycle = Mounted (Some 0), timers = [(0, 10000)], next_timer = 1,
       fetches = [\<lparr>fc_url = health_url, fc_init = None\<rparr>], inflight = [0], detached = [], console = [], unhandled = []\<rparr>
   \<and> request_cache \<lparr>fc_url = health_url, fc_init = None\<rparr> = CacheDefault
   \<and> request_cache \<lparr>fc_url = health_url, fc_init = None\<rparr> \<noteq> NoStore
   \<and> request_cache (HealthStatusServer_request (Some health_url)) = NoStore"
  by (simp add: eval_defs request_cache_def HealthStatusServer_request_def)

text \<open>
  C8, amended: every probe the poller issues is a \<^verbatim>\<open>fetch\<close> of the configured endpoint
  with no options object: a GET request with the default cache mode.
\<close>

theorem probe_request_shape:
  assumes "run url evs initial = Some s" and "c \<in> set (fetches s)"
  shows "fc_url c = url \<and> fc_init c = None \<and> request_method c = ''GET'' \<and> request_cache c = CacheDefault"
proof -
  from fetches_run[OF assms(1)] assms(2) have "c = checkHealth_request url"
    by (auto simp: initial_def)
  then show ?thesis by (simp add: checkHealth_request_def request_method_def request_cache_def)
qed

theorem probe_request_shape_witness:
  "run health_url [Mount, Tick 0] initial =
     Some \<lparr>isHealthy = None, lifecycle = Mounted (Some 0), timers = [(0, 10000)], next_timer = 1,
       fetches = [\<lparr>fc_url = health_url, fc_init = None\<rparr>, \<lparr>fc_url = health_url, fc_init = None\<rparr>],
       inflight = [0, 1], detached = [], console = [], unhandled = []\<rparr>
   \<and> \<lparr>fc_url = health_url, fc_init = None\<rparr> \<in> set (fetches
       \<lparr>isHealthy = None, lifecycle = Mounted (Some 0), timers = [(0, 10000)], next_timer = 1,
       fetches = [\<lparr>fc_url = health_url, fc_init = None\<rparr>, \<lparr>fc_url = health_url, fc_init = None\<rparr>],
       inflight = [0, 1], detached = [], console = [], unhandled = []\<rparr>)
   \<and> request_method \<lparr>fc_url = health_url, fc_init = None\<rparr> = ''GET''
   \<and> request_cache \<lparr>fc_url = health_url, fc_init = None\<rparr> = CacheDefault"
proof -
  have h1: "run health_url [Mount, Tick 0] initial =
     Some \<lparr>isHealthy = None, lifecycle = Mounted (Some 0), timers = [(0, 10000)], next_timer = 1,
       fetches = [\<lparr>fc_url = health_url, fc_init = None\<rparr>, \<lparr>fc_url = health_url, fc_init = None\<rparr>],
       inflight = [0, 1], detached = [], console = [], unhandled = []\<rparr>"
    by (simp add: eval_defs)
  have h2: "\<lparr>fc_url = health_url, fc_init = None\<rparr> \<in> set (fetches
       \<lparr>isHealthy = None, lifecycle = Mounted (Some 0), timers = [(0, 10000)], next_timer = 1,
       fetches = [\<lparr>fc_url = health_url, fc_init = None\<rparr>, \<lparr>fc_url = health_url, fc_init = None\<rparr>],
       inflight = [0, 1], detached = [], console = [], unhandled = []\<rparr>)"
    by simp
  from probe_request_shape[OF h1 h2] h1 h2 show ?thesis by simp
qed

subsection \<open>C9: fetch failures of the JSON display\<close>

text \<open>
  C9 as stated: the claim says that every fetch failure of \<^verbatim>\<open>JsonStatusServer\<close> becomes an inline
  message. The \<^verbatim>\<open>await fetch(...)\<close> is not inside a \<^verbatim>\<open>try\<close>: on a network where the
  call throws, the error leaves the component.
\<close>

theorem json_fetch_throw_counterexample:
  "JsonStatusServer (Inr :: string \<Rightarrow> js_error + string) id None net_down = Inl (JsError ''fetch failed'')"
  by (simp add: JsonStatusServer_def net_down_def)

text \<open>
  C9, amended: a fetch that completes with a response whose status is outside 200 to 299 is
  shown as the inline message "Failed to fetch JSON: status statusText"; a fetch that throws
  is not caught and its error leaves the component.
\<close>

theorem json_failure_rendering:
  "(net (JsonStatusServer_request env) = Inr res \<and> \<not> (200 \<le> status res \<and> status res \<le> 299) \<longrightarrow>
      (\<exists>t. JsonStatusServer res_json stringify env net = Inr t
         \<and> text_content t = ''Failed to fetch JSON: '' @ show_nat (status res) @ '' '' @ statusText res))
   \<and> (net (JsonStatusServer_request env) = Inl e \<longrightarrow>
        JsonStatusServer res_json stringify env net = Inl e)"
  by (simp add: JsonStatusServer_def ok_def)

theorem json_failure_rendering_witness:
  "net_unavailable (JsonStatusServer_request None) = Inr (http 503 ''Service Unavailable'')
   \<and> \<not> (200 \<le> status (http 503 ''Service Unavailable'') \<and> status (http 503 ''Service Unavailable'') \<le> 299)
   \<and> (\<exists>t. JsonStatusServer (Inr :: string \<Rightarrow> js_error + string) id None net_unavailable = Inr t
         \<and> text_content t = ''Failed to fetch JSON: 503 Service Unavailable'')
   \<and> net_down (JsonStatusServer_request None) = Inl (JsError ''fetch failed'')
   \<and> JsonStatusServer (Inr :: string \<Rightarrow> js_error + string) id None net_down = Inl (JsError ''fetch failed'')"
proof -
  have h1: "net_unavailable (JsonStatusServer_request None) = Inr (http 503 ''Service Unavailable'')"
    by (simp add: net_unavailable_def)
  have h2: "\<not> (200 \<le> status (http 503 ''Service Unavailable'') \<and> status (http 503 ''Service Unavailable'') \<le> 299)"
    by (simp add: http_def)
  have h3: "net_down (JsonStatusServer_request None) = Inl (JsError ''fetch failed'')"
    by (simp add: net_down_def)
  have n: "show_nat 503 = ''503''" by code_simp
  from json_failure_rendering[where net = net_unavailable and env = None
      and res = "http 503 ''Service Unavailable''" and res_json = "Inr :: string \<Rightarrow> js_error + string"
      and stringify = id and e = "JsError ''fetch failed''"]
    json_failure_rendering[where net = net_down and env = None
      and res = "http 503 ''Service Unavailable''" and res_json = "Inr :: string \<Rightarrow> js_error + string"
      and stringify = id and e = "JsError ''fetch failed''"]
    h1 h2 h3 n
  show ?thesis by (simp add: http_def)
qed

subsection \<open>C10: the server-rendered health variant\<close>

text \<open>
  C10: when the fetch of \<^verbatim>\<open>HealthStatusServer\<close> throws, the error leaves the component
  and no tree is returned, while \<^verbatim>\<open>checkHealth\<close> of the client-side poller, given the same
  failure, logs it and sets the status to unhealthy.
\<close>

theorem server_variant_propagates:
  assumes "net (HealthStatusServer_request env) = Inl e"
  shows "HealthStatusServer env net = Inl e
    \<and> (\<exists>s'. checkHealth_resume (Inl e) s = Inr s' \<and> isHealthy s' = Some False \<and> console s' = console s @ [e])"
  using assms by (simp add: HealthStatusServer_def checkHealth_resume_Inl setIsHealthy_def console_error_def)

theorem server_variant_propagates_witness:
  "net_down (HealthStatusServer_request (Some health_url)) = Inl (JsError ''fetch failed'')
   \<and> HealthStatusServer (Some health_url) net_down = Inl (JsError ''fetch failed'')
   \<and> checkHealth_resume (Inl (JsError ''fetch failed'')) initial =
       Inr (initial\<lparr>isHealthy := Some False, console := [JsError ''fetch failed'']\<rparr>)"
proof -
  have h: "net_down (HealthStatusServer_request (Some health_url)) = Inl (JsError ''fetch failed'')"
    by (simp add: net_down_def)
  from server_variant_propagates[where net = net_down and env = "Some health_url"
      and e = "JsError ''fetch failed''" and s = initial] h show ?thesis
    by (auto simp: eval_defs)
qed

end
